theory Spec2Isabelle
  imports Main "HOL-Library.Word"
begin

section \<open>The bucketfile package: upload, get and list over a storage client\<close>

text \<open>
  The package \<^verbatim>\<open>bucketfile\<close> (one file, \<^verbatim>\<open>bucketfile.go\<close>) has three
  functions, \<^verbatim>\<open>Upload\<close>, \<^verbatim>\<open>Get\<close> and \<^verbatim>\<open>List\<close>. Each builds a storage client,
  derives a context with a timeout, performs its calls on the client and returns. All
  work on the bucket is done by the storage client library, by \<^verbatim>\<open>io.Copy\<close>,
  \<^verbatim>\<open>ioutil.ReadAll\<close> and \<^verbatim>\<open>fmt.Errorf\<close>; none of these is code of the package.

  The embedding therefore takes everything outside the package as a parameter: a record
  \<open>env\<close> of operations on a world \<open>'w\<close>. The three functions are translated line by line
  over it, threading the world and a log of the calls they make. What is proved about
  them without further assumption holds for every behaviour of the library.
\<close>

subsection \<open>Values crossing the boundary\<close>

type_synonym byte = "8 word"

text \<open>A Go \<^verbatim>\<open>[]byte\<close> or \<^verbatim>\<open>[]string\<close> is a list; the nil slice is the empty list.\<close>

type_synonym bytes = "byte list"

text \<open>
  A Go \<^verbatim>\<open>error\<close> is known to the package only through its message (\<^verbatim>\<open>%v\<close>) and
  through being nil or not: a non-nil error is its message, and an \<^verbatim>\<open>error\<close> result
  is an \<open>error option\<close> with \<open>None\<close> for nil.
\<close>

type_synonym error = string

text \<open>
  \<^verbatim>\<open>context.Context\<close>: the background context has no deadline; a context made by
  \<^verbatim>\<open>context.WithTimeout\<close> has an absolute one (in seconds of the world's clock).
\<close>

datatype "context" = Background | Deadline nat

text \<open>Handles of the storage library: \<^verbatim>\<open>*storage.Client\<close>, \<^verbatim>\<open>*storage.Writer\<close>,
  \<^verbatim>\<open>*storage.Reader\<close>, \<^verbatim>\<open>*storage.ObjectIterator\<close>.\<close>

datatype client = Client nat
datatype writer = Writer nat
datatype reader = Reader nat
datatype iter = Iter nat

text \<open>\<^verbatim>\<open>storage.ObjectAttrs\<close>; the package reads the field \<^verbatim>\<open>Name\<close> only.\<close>

record ObjectAttrs =
  Name :: string

text \<open>
  The result of \<^verbatim>\<open>it.Next()\<close>: attributes with a nil error, the sentinel
  \<^verbatim>\<open>iterator.Done\<close>, or another error. (The iterator returns non-nil attributes
  exactly when the error is nil.)
\<close>

datatype next_result = Item ObjectAttrs | IterDone | IterErr error

subsection \<open>The world outside the package\<close>

text \<open>
  One field per operation the package calls, each a function of the world returning its
  Go results and the next world:
  \<^item> \<open>NewClient ctx\<close> is \<^verbatim>\<open>storage.NewClient(ctx)\<close>, a client or an error;
  \<^item> \<open>ClientClose c\<close> is \<^verbatim>\<open>client.Close()\<close>;
  \<^item> \<open>NewWriter c ctx bucket object\<close> is
    \<^verbatim>\<open>client.Bucket(bucket).Object(object).NewWriter(ctx)\<close>, which has no error result;
  \<^item> \<open>Copy wc file\<close> is \<^verbatim>\<open>io.Copy(wc, file)\<close>, the bytes written and an error;
  \<^item> \<open>WriterClose wc\<close> is \<^verbatim>\<open>wc.Close()\<close>;
  \<^item> \<open>NewReader c ctx bucket object\<close> is
    \<^verbatim>\<open>client.Bucket(bucket).Object(object).NewReader(ctx)\<close>, a reader or an error;
  \<^item> \<open>ReadAll rc\<close> is \<^verbatim>\<open>ioutil.ReadAll(rc)\<close>, the bytes read so far and an error;
  \<^item> \<open>ReaderClose rc\<close> is \<^verbatim>\<open>rc.Close()\<close>;
  \<^item> \<open>Objects c ctx bucket\<close> is \<^verbatim>\<open>client.Bucket(bucket).Objects(ctx, nil)\<close>;
  \<^item> \<open>Next it\<close> is \<^verbatim>\<open>it.Next()\<close>;
  \<^item> \<open>Now\<close> is the wall clock read by \<^verbatim>\<open>context.WithTimeout\<close>, in seconds;
  \<^item> \<open>Quote\<close> is the verb \<^verbatim>\<open>%q\<close> of \<^verbatim>\<open>fmt\<close> on a string.
  The type \<open>'r\<close> is the caller's \<^verbatim>\<open>io.Reader\<close>.
\<close>

record ('w, 'r) env =
  NewClient :: "context \<Rightarrow> 'w \<Rightarrow> (error + client) \<times> 'w"
  ClientClose :: "client \<Rightarrow> 'w \<Rightarrow> error option \<times> 'w"
  NewWriter :: "client \<Rightarrow> context \<Rightarrow> string \<Rightarrow> string \<Rightarrow> 'w \<Rightarrow> writer \<times> 'w"
  Copy :: "writer \<Rightarrow> 'r \<Rightarrow> 'w \<Rightarrow> (int \<times> error option) \<times> 'w"
  WriterClose :: "writer \<Rightarrow> 'w \<Rightarrow> error option \<times> 'w"
  NewReader :: "client \<Rightarrow> context \<Rightarrow> string \<Rightarrow> string \<Rightarrow> 'w \<Rightarrow> (error + reader) \<times> 'w"
  ReadAll :: "reader \<Rightarrow> 'w \<Rightarrow> (bytes \<times> error option) \<times> 'w"
  ReaderClose :: "reader \<Rightarrow> 'w \<Rightarrow> error option \<times> 'w"
  Objects :: "client \<Rightarrow> context \<Rightarrow> string \<Rightarrow> 'w \<Rightarrow> iter \<times> 'w"
  Next :: "iter \<Rightarrow> 'w \<Rightarrow> next_result \<times> 'w"
  Now :: "'w \<Rightarrow> nat"
  Quote :: "string \<Rightarrow> string"

subsection \<open>The log of calls\<close>

text \<open>
  Every call the package makes is logged with its arguments, in order, so that what a
  function did (and did not do) before it returned can be stated.
\<close>

datatype event =
    EvNewClient "context"
  | EvClientClose client
  | EvCancel "context"
  | EvNewWriter client "context" string string
  | EvCopy writer
  | EvWriterClose writer
  | EvNewReader client "context" string string
  | EvReadAll reader
  | EvReaderClose reader
  | EvObjects client "context" string
  | EvNext iter

type_synonym 'w st = "event list \<times> 'w"

definition call :: "event \<Rightarrow> ('w \<Rightarrow> 'a \<times> 'w) \<Rightarrow> 'w st \<Rightarrow> 'a \<times> 'w st" where
  "call ev f s = (case f (snd s) of (r, w') \<Rightarrow> (r, (fst s @ [ev], w')))"

text \<open>
  \<^verbatim>\<open>defer d()\<close> followed by the rest of the function: the rest runs, then \<open>d\<close>, and the
  results are those of the rest (no function of the package has named results). Nested
  uses run last-registered first, as Go does.
\<close>

definition deferred :: "('s \<Rightarrow> 's) \<Rightarrow> ('s \<Rightarrow> 'a \<times> 's) \<Rightarrow> 's \<Rightarrow> 'a \<times> 's" where
  "deferred d rest s = (case rest s of (r, s') \<Rightarrow> (r, d s'))"

text \<open>The same around a body that may not return (\<open>None\<close>): then nothing runs after it.\<close>

definition deferred_opt :: "('s \<Rightarrow> 's) \<Rightarrow> ('s \<Rightarrow> ('a \<times> 's) option) \<Rightarrow> 's \<Rightarrow> ('a \<times> 's) option" where
  "deferred_opt d rest s = (case rest s of None \<Rightarrow> None | Some (r, s') \<Rightarrow> Some (r, d s'))"

text \<open>\<^verbatim>\<open>client.Close()\<close> as a deferred call: its error result is dropped.\<close>

definition close_client :: "('w, 'r) env \<Rightarrow> client \<Rightarrow> 'w st \<Rightarrow> 'w st" where
  "close_client env c s = snd (call (EvClientClose c) (ClientClose env c) s)"

text \<open>\<^verbatim>\<open>rc.Close()\<close> as a deferred call: its error result is dropped.\<close>

definition close_reader :: "('w, 'r) env \<Rightarrow> reader \<Rightarrow> 'w st \<Rightarrow> 'w st" where
  "close_reader env rc s = snd (call (EvReaderClose rc) (ReaderClose env rc) s)"

text \<open>
  \<^verbatim>\<open>context.WithTimeout(parent, d)\<close>: the deadline is the clock's time at the call
  plus \<open>d\<close>, unless the parent's is earlier. Its second result, \<^verbatim>\<open>cancel\<close>, is logged
  when called and does not touch the world.
\<close>

definition WithTimeout :: "('w, 'r) env \<Rightarrow> context \<Rightarrow> nat \<Rightarrow> 'w \<Rightarrow> context" where
  "WithTimeout env parent d w =
     (case parent of
        Background \<Rightarrow> Deadline (Now env w + d)
      | Deadline t \<Rightarrow> Deadline (min t (Now env w + d)))"

definition cancel :: "context \<Rightarrow> 'w st \<Rightarrow> 'w st" where
  "cancel ctx s = (fst s @ [EvCancel ctx], snd s)"

subsection \<open>Upload\<close>

text \<open>
  \<^verbatim>\<open>
  func Upload(file io.Reader, bucket, object string) error {
      ctx := context.Background()
      client, err := storage.NewClient(ctx)
      if err != nil {
          return fmt.Errorf("storage.NewClient: %v", err)
      }
      defer client.Close()
      ctx, cancel := context.WithTimeout(ctx, time.Second*50)
      defer cancel()
      wc := client.Bucket(bucket).Object(object).NewWriter(ctx)
      if _, err = io.Copy(wc, file); err != nil {
          return fmt.Errorf("io.Copy: %v", err)
      }
      if err := wc.Close(); err != nil {
          return fmt.Errorf("Writer.Close: %v", err)
      }
      return nil
  }
  \<close>
\<close>

definition Upload :: "('w, 'r) env \<Rightarrow> 'r \<Rightarrow> string \<Rightarrow> string \<Rightarrow> 'w st \<Rightarrow> error option \<times> 'w st" where
  "Upload env file bucket object s =
     (let ctx = Background in
      case call (EvNewClient ctx) (NewClient env ctx) s of
        (Inl err, s1) \<Rightarrow> (Some (''storage.NewClient: '' @ err), s1)
      | (Inr client, s1) \<Rightarrow>
          deferred (close_client env client) (\<lambda>s1.
            let ctx = WithTimeout env ctx 50 (snd s1) in
            deferred (cancel ctx) (\<lambda>s2.
              case call (EvNewWriter client ctx bucket object)
                        (NewWriter env client ctx bucket object) s2 of
                (wc, s3) \<Rightarrow>
                  (case call (EvCopy wc) (Copy env wc file) s3 of
                     ((_, Some err), s4) \<Rightarrow> (Some (''io.Copy: '' @ err), s4)
                   | ((_, None), s4) \<Rightarrow>
                       (case call (EvWriterClose wc) (WriterClose env wc) s4 of
                          (Some err, s5) \<Rightarrow> (Some (''Writer.Close: '' @ err), s5)
                        | (None, s5) \<Rightarrow> (None, s5)))) s1) s1)"

subsection \<open>Get\<close>

text \<open>
  \<^verbatim>\<open>
  func Get(bucket, object string) ([]byte, error) {
      ctx := context.Background()
      client, err := storage.NewClient(ctx)
      if err != nil {
          return nil, fmt.Errorf("storage.NewClient: %v", err)
      }
      defer client.Close()
      ctx, cancel := context.WithTimeout(ctx, time.Second*50)
      defer cancel()
      rc, err := client.Bucket(bucket).Object(object).NewReader(ctx)
      if err != nil {
          return nil, fmt.Errorf("Object(%q).NewReader: %v", object, err)
      }
      defer rc.Close()
      data, err := ioutil.ReadAll(rc)
      if err != nil {
          return nil, fmt.Errorf("ioutil.ReadAll: %v", err)
      }
      return data, nil
  }
  \<close>
\<close>

definition Get :: "('w, 'r) env \<Rightarrow> string \<Rightarrow> string \<Rightarrow> 'w st \<Rightarrow> (bytes \<times> error option) \<times> 'w st" where
  "Get env bucket object s =
     (let ctx = Background in
      case call (EvNewClient ctx) (NewClient env ctx) s of
        (Inl err, s1) \<Rightarrow> (([], Some (''storage.NewClient: '' @ err)), s1)
      | (Inr client, s1) \<Rightarrow>
          deferred (close_client env client) (\<lambda>s1.
            let ctx = WithTimeout env ctx 50 (snd s1) in
            deferred (cancel ctx) (\<lambda>s2.
              case call (EvNewReader client ctx bucket object)
                        (NewReader env client ctx bucket object) s2 of
                (Inl err, s3) \<Rightarrow>
                  (([], Some (''Object('' @ Quote env object @ '').NewReader: '' @ err)), s3)
              | (Inr rc, s3) \<Rightarrow>
                  deferred (close_reader env rc) (\<lambda>s3.
                    case call (EvReadAll rc) (ReadAll env rc) s3 of
                      ((data, Some err), s4) \<Rightarrow> (([], Some (''ioutil.ReadAll: '' @ err)), s4)
                    | ((data, None), s4) \<Rightarrow> ((data, None), s4)) s3) s1) s1)"

subsection \<open>List\<close>

text \<open>
  \<^verbatim>\<open>
  func List(bucket string) ([]string, error) {
      var fileNames []string
      ctx := context.Background()
      client, err := storage.NewClient(ctx)
      if err != nil {
          return fileNames, fmt.Errorf("storage.NewClient: %v", err)
      }
      defer client.Close()
      ctx, cancel := context.WithTimeout(ctx, time.Second*10)
      defer cancel()
      it := client.Bucket(bucket).Objects(ctx, nil)
      for {
          attrs, err := it.Next()
          if err == iterator.Done {
              break
          }
          if err != nil {
              return fileNames, fmt.Errorf("Bucket(%q).Objects: %v", bucket, err)
          }
          fileNames = append(fileNames, attrs.Name)
      }
      return fileNames, nil
  }
  \<close>
  The loop has no bound of its own: it runs until the iterator answers with the
  sentinel or an error. Against an iterator that yields objects for ever it does not
  return, which is the value \<open>None\<close> here.
\<close>

partial_function (option) list_loop ::
  "('w, 'r) env \<Rightarrow> iter \<Rightarrow> string \<Rightarrow> string list \<Rightarrow> 'w st \<Rightarrow> ((string list \<times> error option) \<times> 'w st) option"
where
  "list_loop env it bucket fileNames s =
     (case call (EvNext it) (Next env it) s of
        (IterDone, s') \<Rightarrow> Some ((fileNames, None), s')
      | (IterErr err, s') \<Rightarrow>
          Some ((fileNames, Some (''Bucket('' @ Quote env bucket @ '').Objects: '' @ err)), s')
      | (Item attrs, s') \<Rightarrow> list_loop env it bucket (fileNames @ [Name attrs]) s')"

definition List :: "('w, 'r) env \<Rightarrow> string \<Rightarrow> 'w st \<Rightarrow> ((string list \<times> error option) \<times> 'w st) option" where
  "List env bucket s =
     (let fileNames = []; ctx = Background in
      case call (EvNewClient ctx) (NewClient env ctx) s of
        (Inl err, s1) \<Rightarrow> Some ((fileNames, Some (''storage.NewClient: '' @ err)), s1)
      | (Inr client, s1) \<Rightarrow>
          deferred_opt (close_client env client) (\<lambda>s1.
            let ctx = WithTimeout env ctx 10 (snd s1) in
            deferred_opt (cancel ctx) (\<lambda>s2.
              case call (EvObjects client ctx bucket) (Objects env client ctx bucket) s2 of
                (it, s3) \<Rightarrow> list_loop env it bucket fileNames s3) s1) s1)"

text \<open>
  The error \<^verbatim>\<open>List\<close> returns for the answer that ended its loop: nil after the
  sentinel, the wrapped error otherwise.
\<close>

definition listing_error :: "('w, 'r) env \<Rightarrow> string \<Rightarrow> next_result \<Rightarrow> error option" where
  "listing_error env bucket r =
     (case r of
        IterErr e \<Rightarrow> Some (''Bucket('' @ Quote env bucket @ '').Objects: '' @ e)
      | IterDone \<Rightarrow> None
      | Item a \<Rightarrow> None)"

subsection \<open>What an iterator yields\<close>

text \<open>
  \<open>yields env it w names fin\<close>: from the world \<open>w\<close>, successive calls of \<^verbatim>\<open>it.Next()\<close>
  return objects with exactly the names \<open>names\<close>, in this order, and the call after them
  returns \<open>fin\<close>, which is the sentinel or an error together with the world it leaves.
\<close>

primrec yields :: "('w, 'r) env \<Rightarrow> iter \<Rightarrow> string list \<Rightarrow> 'w \<Rightarrow> next_result \<times> 'w \<Rightarrow> bool" where
  "yields env it [] w fin =
     (case fst fin of Item a \<Rightarrow> False | IterDone \<Rightarrow> Next env it w = fin | IterErr e \<Rightarrow> Next env it w = fin)"
| "yields env it (n # ns) w fin =
     (case Next env it w of
        (Item a, w') \<Rightarrow> Name a = n \<and> yields env it ns w' fin
      | (IterDone, w') \<Rightarrow> False
      | (IterErr e, w') \<Rightarrow> False)"

subsection \<open>Contexts in the log\<close>

text \<open>The context an operation was started under, for the calls that take one.\<close>

fun ctx_of :: "event \<Rightarrow> context option" where
  "ctx_of (EvNewClient ctx) = Some ctx"
| "ctx_of (EvNewWriter c ctx bucket object) = Some ctx"
| "ctx_of (EvNewReader c ctx bucket object) = Some ctx"
| "ctx_of (EvObjects c ctx bucket) = Some ctx"
| "ctx_of ev = None"

text \<open>
  \<open>under_deadline t evs\<close>: every call of \<open>evs\<close> that takes a context was given one whose
  deadline is \<open>t\<close>.
\<close>

definition under_deadline :: "nat \<Rightarrow> event list \<Rightarrow> bool" where
  "under_deadline t evs =
     list_all (\<lambda>ev. case ctx_of ev of None \<Rightarrow> True | Some ctx \<Rightarrow> ctx = Deadline t) evs"

subsection \<open>An in-memory storage service\<close>

text \<open>
  Modelled from the spec: the storage service behind the client library, which is not
  code of the package. The spec gives its contract: Connect returns a client or fails;
  OpenWriter gives a write channel that buffers the bytes written to it; Finalize
  commits the object, creating or overwriting it; OpenReader gives a read channel on
  an existing object and fails on a missing one; reading yields the object's bytes;
  the listing enumerates the names in a bucket up to an end-of-listing sentinel. Every
  step that has an error result can fail.

  A world holds the committed objects, the open clients, channels and iterators, a
  clock that every call advances by \<open>latency\<close>, and a script \<open>faults\<close>: each call that
  can fail takes the next entry, and fails with its message when it is \<open>Some\<close>. Closing
  a client or a read channel takes it out of the open ones.
\<close>

record mem =
  objects :: "((string \<times> string) \<times> bytes) list"
  clock :: nat
  latency :: nat
  faults :: "error option list"
  clients :: "nat list"
  writers :: "(nat \<times> ((string \<times> string) \<times> bytes)) list"
  readers :: "(nat \<times> bytes) list"
  listings :: "(nat \<times> string list) list"
  fresh :: nat

definition put :: "'k \<Rightarrow> 'v \<Rightarrow> ('k \<times> 'v) list \<Rightarrow> ('k \<times> 'v) list" where
  "put k v kvs = (k, v) # filter (\<lambda>kv. fst kv \<noteq> k) kvs"

definition tick :: "mem \<Rightarrow> mem" where
  "tick w = w\<lparr>clock := clock w + latency w\<rparr>"

definition pop_fault :: "mem \<Rightarrow> error option \<times> mem" where
  "pop_fault w = (case faults w of [] \<Rightarrow> (None, w) | f # fs \<Rightarrow> (f, w\<lparr>faults := fs\<rparr>))"

definition names_in :: "string \<Rightarrow> ((string \<times> string) \<times> bytes) list \<Rightarrow> string list" where
  "names_in bucket objs = map (snd \<circ> fst) (filter (\<lambda>kv. fst (fst kv) = bucket) objs)"

definition mem_NewClient :: "context \<Rightarrow> mem \<Rightarrow> (error + client) \<times> mem" where
  "mem_NewClient ctx w =
     (case pop_fault (tick w) of
        (Some e, w') \<Rightarrow> (Inl e, w')
      | (None, w') \<Rightarrow>
          (Inr (Client (fresh w')),
           w'\<lparr>fresh := Suc (fresh w'), clients := fresh w' # clients w'\<rparr>))"

definition mem_ClientClose :: "client \<Rightarrow> mem \<Rightarrow> error option \<times> mem" where
  "mem_ClientClose c w =
     (None, (tick w)\<lparr>clients := removeAll (case c of Client h \<Rightarrow> h) (clients w)\<rparr>)"

definition mem_NewWriter :: "client \<Rightarrow> context \<Rightarrow> string \<Rightarrow> string \<Rightarrow> mem \<Rightarrow> writer \<times> mem" where
  "mem_NewWriter c ctx bucket object w =
     (let w' = tick w; h = fresh w'
      in (Writer h, w'\<lparr>fresh := Suc h, writers := put h ((bucket, object), []) (writers w')\<rparr>))"

text \<open>The caller's reader is the byte sequence it yields before end of file.\<close>

fun mem_Copy :: "writer \<Rightarrow> bytes \<Rightarrow> mem \<Rightarrow> (int \<times> error option) \<times> mem" where
  "mem_Copy (Writer h) file w =
     (case pop_fault (tick w) of
        (Some e, w') \<Rightarrow> ((0, Some e), w')
      | (None, w') \<Rightarrow>
          (case map_of (writers w') h of
             None \<Rightarrow> ((0, Some ''storage: writer is not open''), w')
           | Some (k, buf) \<Rightarrow>
               ((int (length file), None), w'\<lparr>writers := put h (k, buf @ file) (writers w')\<rparr>)))"

fun mem_WriterClose :: "writer \<Rightarrow> mem \<Rightarrow> error option \<times> mem" where
  "mem_WriterClose (Writer h) w =
     (case pop_fault (tick w) of
        (Some e, w') \<Rightarrow> (Some e, w')
      | (None, w') \<Rightarrow>
          (case map_of (writers w') h of
             None \<Rightarrow> (Some ''storage: writer is not open'', w')
           | Some (k, buf) \<Rightarrow> (None, w'\<lparr>objects := put k buf (objects w')\<rparr>)))"

definition mem_NewReader :: "client \<Rightarrow> context \<Rightarrow> string \<Rightarrow> string \<Rightarrow> mem \<Rightarrow> (error + reader) \<times> mem" where
  "mem_NewReader c ctx bucket object w =
     (case pop_fault (tick w) of
        (Some e, w') \<Rightarrow> (Inl e, w')
      | (None, w') \<Rightarrow>
          (case map_of (objects w') (bucket, object) of
             None \<Rightarrow> (Inl ''storage: object doesn't exist'', w')
           | Some data \<Rightarrow>
               (let h = fresh w'
                in (Inr (Reader h), w'\<lparr>fresh := Suc h, readers := put h data (readers w')\<rparr>))))"

text \<open>A read that fails has delivered a part of the object (here its first half).\<close>

fun mem_ReadAll :: "reader \<Rightarrow> mem \<Rightarrow> (bytes \<times> error option) \<times> mem" where
  "mem_ReadAll (Reader h) w =
     (case pop_fault (tick w) of
        (Some e, w') \<Rightarrow>
          (case map_of (readers w') h of
             None \<Rightarrow> (([], Some e), w')
           | Some data \<Rightarrow> ((take (length data div 2) data, Some e), w'))
      | (None, w') \<Rightarrow>
          (case map_of (readers w') h of
             None \<Rightarrow> (([], Some ''storage: reader is not open''), w')
           | Some data \<Rightarrow> ((data, None), w')))"

definition mem_ReaderClose :: "reader \<Rightarrow> mem \<Rightarrow> error option \<times> mem" where
  "mem_ReaderClose rc w =
     (None, (tick w)\<lparr>readers := filter (\<lambda>kv. fst kv \<noteq> (case rc of Reader h \<Rightarrow> h)) (readers w)\<rparr>)"

definition mem_Objects :: "client \<Rightarrow> context \<Rightarrow> string \<Rightarrow> mem \<Rightarrow> iter \<times> mem" where
  "mem_Objects c ctx bucket w =
     (let w' = tick w; h = fresh w'
      in (Iter h, w'\<lparr>fresh := Suc h, listings := put h (names_in bucket (objects w')) (listings w')\<rparr>))"

fun mem_Next :: "iter \<Rightarrow> mem \<Rightarrow> next_result \<times> mem" where
  "mem_Next (Iter h) w =
     (case pop_fault (tick w) of
        (Some e, w') \<Rightarrow> (IterErr e, w')
      | (None, w') \<Rightarrow>
          (case map_of (listings w') h of
             None \<Rightarrow> (IterErr ''storage: iterator is not open'', w')
           | Some [] \<Rightarrow> (IterDone, w')
           | Some (n # ns) \<Rightarrow> (Item \<lparr>Name = n\<rparr>, w'\<lparr>listings := put h ns (listings w')\<rparr>)))"

text \<open>
  \<^verbatim>\<open>%q\<close> on a string, as \<^verbatim>\<open>strconv.Quote\<close> renders it byte by byte: the string goes
  between double quotes; a double quote and a backslash get a backslash in front; the
  other printable ASCII characters stand for themselves; the control characters 7 to 13
  are \<^verbatim>\<open>\a \b \t \n \v \f \r\<close>; every other byte below 32, the byte 127 and every
  byte from 128 up is \<^verbatim>\<open>\x\<close> and two lower-case hexadecimal digits. For a byte from
  128 up this is what Go prints when the byte is not part of a valid UTF-8 encoding; Go
  decodes valid encodings and looks the rune up in Unicode's tables, which are not
  modelled. The names used below are plain ASCII.
\<close>

definition hex_digit :: "nat \<Rightarrow> char" where
  "hex_digit n = char_of (if n < 10 then 48 + n else 87 + n)"

definition quote_byte :: "char \<Rightarrow> string" where
  "quote_byte c =
     (let n = (of_char c :: nat) in
      if c = CHR 0x22 \<or> c = CHR 0x5C then [CHR 0x5C, c]
      else if 32 \<le> n \<and> n < 127 then [c]
      else if n = 7 then [CHR 0x5C, CHR ''a'']
      else if n = 8 then [CHR 0x5C, CHR ''b'']
      else if n = 12 then [CHR 0x5C, CHR ''f'']
      else if n = 10 then [CHR 0x5C, CHR ''n'']
      else if n = 13 then [CHR 0x5C, CHR ''r'']
      else if n = 9 then [CHR 0x5C, CHR ''t'']
      else if n = 11 then [CHR 0x5C, CHR ''v'']
      else [CHR 0x5C, CHR ''x'', hex_digit (n div 16), hex_digit (n mod 16)])"

definition mem_Quote :: "string \<Rightarrow> string" where
  "mem_Quote s = CHR 0x22 # concat (map quote_byte s) @ [CHR 0x22]"

definition mem_env :: "(mem, bytes) env" where
  "mem_env = \<lparr>NewClient = mem_NewClient, ClientClose = mem_ClientClose,
     NewWriter = mem_NewWriter, Copy = mem_Copy, WriterClose = mem_WriterClose,
     NewReader = mem_NewReader, ReadAll = mem_ReadAll, ReaderClose = mem_ReaderClose,
     Objects = mem_Objects, Next = mem_Next, Now = clock, Quote = mem_Quote\<rparr>"

text \<open>
  A world to run on: the bucket \<open>''b''\<close> holds the objects \<open>''x''\<close> and \<open>''y''\<close>, the
  clock stands at 100, every call takes 3 seconds, and \<open>fs\<close> is the script of failures.
\<close>

definition world :: "error option list \<Rightarrow> mem" where
  "world fs = \<lparr>objects = [((''b'', ''x''), [1, 2, 3, 4]), ((''b'', ''y''), [5])],
     clock = 100, latency = 3, faults = fs, clients = [], writers = [], readers = [], listings = [],
     fresh = 0\<rparr>"

section \<open>Properties\<close>

subsection \<open>Unfolding the calls\<close>

lemma call_simp: "call ev f (tr, w) = (case f w of (r, w') \<Rightarrow> (r, (tr @ [ev], w')))"
  by (simp add: call_def)

lemmas facade_defs = call_def deferred_def deferred_opt_def WithTimeout_def cancel_def
  close_client_def close_reader_def Let_def

lemmas mem_defs = mem_env_def world_def mem_NewClient_def mem_ClientClose_def mem_NewWriter_def
  mem_NewReader_def mem_ReaderClose_def mem_Objects_def mem_Quote_def quote_byte_def tick_def
  pop_fault_def
  names_in_def put_def

subsection \<open>The paths of Upload and Get\<close>

text \<open>
  Each function is a straight line with early returns. The lemmas below give, for each
  path, the whole result: the values returned, the calls logged and the world left, in
  terms of the library's answers, for every behaviour of the library.
\<close>

lemma Upload_run:
  assumes "NewClient env Background w = (Inr client, w1)"
    and "NewWriter env client (Deadline (Now env w1 + 50)) bucket object w1 = (wc, w2)"
    and "Copy env wc file w2 = ((n, cerr), w3)"
    and "WriterClose env wc w3 = (x, w4)"
  shows "Upload env file bucket object (tr, w) =
     (case cerr of
        Some e \<Rightarrow>
          (Some (''io.Copy: '' @ e),
           (tr @ [EvNewClient Background,
                  EvNewWriter client (Deadline (Now env w1 + 50)) bucket object,
                  EvCopy wc,
                  EvCancel (Deadline (Now env w1 + 50)), EvClientClose client],
            snd (ClientClose env client w3)))
      | None \<Rightarrow>
          (case x of Some e \<Rightarrow> Some (''Writer.Close: '' @ e) | None \<Rightarrow> None,
           (tr @ [EvNewClient Background,
                  EvNewWriter client (Deadline (Now env w1 + 50)) bucket object,
                  EvCopy wc, EvWriterClose wc,
                  EvCancel (Deadline (Now env w1 + 50)), EvClientClose client],
            snd (ClientClose env client w4))))"
  using assms
  by (simp add: Upload_def call_simp facade_defs split: prod.splits option.splits)

lemma Upload_success_steps:
  assumes "Upload env file bucket object (tr, w) = (None, s1)"
  shows "\<exists>client w1 wc w2 n w3 w4.
      NewClient env Background w = (Inr client, w1) \<and>
      NewWriter env client (Deadline (Now env w1 + 50)) bucket object w1 = (wc, w2) \<and>
      Copy env wc file w2 = ((n, None), w3) \<and>
      WriterClose env wc w3 = (None, w4) \<and>
      snd s1 = snd (ClientClose env client w4)"
  using assms
  by (auto simp: Upload_def call_simp deferred_def WithTimeout_def Let_def cancel_def
      close_client_def split: prod.splits sum.splits option.splits)

lemma Get_run_open_fails:
  assumes "NewClient env Background w = (Inr client, w1)"
    and "NewReader env client (Deadline (Now env w1 + 50)) bucket object w1 = (Inl e, w2)"
  shows "Get env bucket object (tr, w) =
     (([], Some (''Object('' @ Quote env object @ '').NewReader: '' @ e)),
      (tr @ [EvNewClient Background,
             EvNewReader client (Deadline (Now env w1 + 50)) bucket object,
             EvCancel (Deadline (Now env w1 + 50)), EvClientClose client],
       snd (ClientClose env client w2)))"
  using assms
  by (simp add: Get_def call_simp facade_defs split: prod.splits option.splits)

lemma Get_run_opened:
  assumes "NewClient env Background w = (Inr client, w1)"
    and "NewReader env client (Deadline (Now env w1 + 50)) bucket object w1 = (Inr rc, w2)"
    and "ReadAll env rc w2 = ((data, rerr), w3)"
  shows "Get env bucket object (tr, w) =
     ((case rerr of Some e \<Rightarrow> ([], Some (''ioutil.ReadAll: '' @ e)) | None \<Rightarrow> (data, None)),
      (tr @ [EvNewClient Background,
             EvNewReader client (Deadline (Now env w1 + 50)) bucket object,
             EvReadAll rc, EvReaderClose rc,
             EvCancel (Deadline (Now env w1 + 50)), EvClientClose client],
       snd (ClientClose env client (snd (ReaderClose env rc w3)))))"
  using assms
  by (simp add: Get_def call_simp facade_defs split: prod.splits option.splits)

lemma Get_steps:
  assumes "Get env bucket object (tr, w) = ((data, err), s3)"
  shows "(\<exists>e w1. NewClient env Background w = (Inl e, w1) \<and> data = [] \<and> err \<noteq> None) \<or>
     (\<exists>client w1 e w2. NewClient env Background w = (Inr client, w1) \<and>
        NewReader env client (Deadline (Now env w1 + 50)) bucket object w1 = (Inl e, w2) \<and>
        data = [] \<and> err \<noteq> None) \<or>
     (\<exists>client w1 rc w2 part e w3. NewClient env Background w = (Inr client, w1) \<and>
        NewReader env client (Deadline (Now env w1 + 50)) bucket object w1 = (Inr rc, w2) \<and>
        ReadAll env rc w2 = ((part, Some e), w3) \<and> data = [] \<and> err \<noteq> None) \<or>
     (\<exists>client w1 rc w2 w3. NewClient env Background w = (Inr client, w1) \<and>
        NewReader env client (Deadline (Now env w1 + 50)) bucket object w1 = (Inr rc, w2) \<and>
        ReadAll env rc w2 = ((data, None), w3) \<and> err = None)"
  using assms
  by (auto simp: Get_def call_simp deferred_def WithTimeout_def Let_def
      split: prod.splits sum.splits option.splits)

subsection \<open>The loop of List\<close>

text \<open>
  If the iterator yields \<open>ns\<close> and then \<open>fin\<close>, the loop returns, with \<open>ns\<close> appended to
  the names it started from and one call of \<^verbatim>\<open>Next\<close> logged per answer. Conversely, a
  loop that returns has seen exactly such a run: this is by the induction rule of the
  loop's definition, since the loop need not end.
\<close>

lemma yields_not_Item: "\<not> yields env it ns w (Item a, w')"
  by (induction ns arbitrary: w) (auto split: prod.splits next_result.splits)

lemma list_loop_yields:
  "yields env it ns w (fin, w') \<Longrightarrow>
   list_loop env it bucket acc (tr, w) =
     Some ((acc @ ns, listing_error env bucket fin), (tr @ replicate (Suc (length ns)) (EvNext it), w'))"
proof (induction ns arbitrary: acc tr w)
  case Nil
  then show ?case
    by (subst list_loop.simps) (auto simp: call_simp listing_error_def split: next_result.splits)
next
  case (Cons n ns)
  from Cons.prems obtain a w1 where nx: "Next env it w = (Item a, w1)" and nm: "Name a = n"
    and rest: "yields env it ns w1 (fin, w')"
    by (auto split: prod.splits next_result.splits)
  have "list_loop env it bucket acc (tr, w) = list_loop env it bucket (acc @ [n]) (tr @ [EvNext it], w1)"
    by (subst list_loop.simps) (simp add: call_simp nx nm)
  also have "\<dots> = Some (((acc @ [n]) @ ns, listing_error env bucket fin),
        ((tr @ [EvNext it]) @ replicate (Suc (length ns)) (EvNext it), w'))"
    by (rule Cons.IH[OF rest])
  finally show ?case by (simp add: replicate_app_Cons_same)
qed

lemma list_loop_returns:
  assumes ret: "list_loop env it bucket acc s = Some r"
  shows "\<exists>ns fin w'. yields env it ns (snd s) (fin, w') \<and>
      r = ((acc @ ns, listing_error env bucket fin),
           (fst s @ replicate (Suc (length ns)) (EvNext it), w'))"
proof (rule list_loop.raw_induct[where P = "\<lambda>env it bucket acc s r.
      \<exists>ns fin w'. yields env it ns (snd s) (fin, w') \<and>
        r = ((acc @ ns, listing_error env bucket fin),
             (fst s @ replicate (Suc (length ns)) (EvNext it), w'))", OF _ ret])
  fix loop :: "('a, 'b) env \<Rightarrow> iter \<Rightarrow> string \<Rightarrow> string list \<Rightarrow> 'a st
      \<Rightarrow> ((string list \<times> error option) \<times> 'a st) option"
  fix env :: "('a, 'b) env" and it bucket acc and s :: "'a st" and r
  assume IH: "\<And>env it bucket acc s r. loop env it bucket acc s = Some r \<Longrightarrow>
      \<exists>ns fin w'. yields env it ns (snd s) (fin, w') \<and>
        r = ((acc @ ns, listing_error env bucket fin),
             (fst s @ replicate (Suc (length ns)) (EvNext it), w'))"
  assume body: "(case call (EvNext it) (Next env it) s of
        (Item attrs, s') \<Rightarrow> loop env it bucket (acc @ [Name attrs]) s'
      | (IterDone, s') \<Rightarrow> Some ((acc, None), s')
      | (IterErr err, s') \<Rightarrow>
          Some ((acc, Some (''Bucket('' @ Quote env bucket @ '').Objects: '' @ err)), s')) = Some r"
  obtain tr w where s: "s = (tr, w)" by (cases s)
  obtain x w1 where nx: "Next env it w = (x, w1)" by (cases "Next env it w")
  show "\<exists>ns fin w'. yields env it ns (snd s) (fin, w') \<and>
        r = ((acc @ ns, listing_error env bucket fin),
             (fst s @ replicate (Suc (length ns)) (EvNext it), w'))"
  proof (cases x)
    case (Item a)
    with body nx s have "loop env it bucket (acc @ [Name a]) (tr @ [EvNext it], w1) = Some r"
      by (simp add: call_simp)
    from IH[OF this] obtain ns fin w' where y: "yields env it ns w1 (fin, w')"
      and r: "r = (((acc @ [Name a]) @ ns, listing_error env bucket fin),
           ((tr @ [EvNext it]) @ replicate (Suc (length ns)) (EvNext it), w'))"
      by auto
    have "yields env it (Name a # ns) (snd s) (fin, w')"
      using y nx Item s by simp
    moreover have "r = ((acc @ (Name a # ns), listing_error env bucket fin),
         (fst s @ replicate (Suc (length (Name a # ns))) (EvNext it), w'))"
      using r s by (simp add: replicate_app_Cons_same)
    ultimately show ?thesis by blast
  next
    case IterDone
    with body nx s have "r = ((acc @ [], listing_error env bucket IterDone),
        (fst s @ replicate (Suc (length ([]::string list))) (EvNext it), w1))"
      by (auto simp: call_simp listing_error_def)
    moreover have "yields env it [] (snd s) (IterDone, w1)" using nx IterDone s by simp
    ultimately show ?thesis by blast
  next
    case (IterErr e)
    with body nx s have "r = ((acc @ [], listing_error env bucket (IterErr e)),
        (fst s @ replicate (Suc (length ([]::string list))) (EvNext it), w1))"
      by (auto simp: call_simp listing_error_def)
    moreover have "yields env it [] (snd s) (IterErr e, w1)" using nx IterErr s by simp
    ultimately show ?thesis by blast
  qed
qed

lemma List_client_fails:
  "NewClient env Background w = (Inl e, w1) \<Longrightarrow>
   List env bucket (tr, w) =
     Some (([], Some (''storage.NewClient: '' @ e)), (tr @ [EvNewClient Background], w1))"
  by (simp add: List_def call_simp)

lemma List_client_ok:
  "NewClient env Background w = (Inr client, w1) \<Longrightarrow>
   Objects env client (Deadline (Now env w1 + 10)) bucket w1 = (it, w2) \<Longrightarrow>
   List env bucket (tr, w) =
     (case list_loop env it bucket []
             (tr @ [EvNewClient Background, EvObjects client (Deadline (Now env w1 + 10)) bucket], w2) of
        None \<Rightarrow> None
      | Some (r, (tr', w')) \<Rightarrow>
          Some (r, (tr' @ [EvCancel (Deadline (Now env w1 + 10)), EvClientClose client],
                    snd (ClientClose env client w'))))"
  by (simp add: List_def call_simp deferred_opt_def WithTimeout_def cancel_def close_client_def
      split: option.splits prod.splits)

lemma List_run:
  assumes nc: "NewClient env Background w = (Inr client, w1)"
    and ob: "Objects env client (Deadline (Now env w1 + 10)) bucket w1 = (it, w2)"
    and ys: "yields env it names w2 (fin, w3)"
  shows "List env bucket (tr, w) =
     Some ((names, listing_error env bucket fin),
           (tr @ [EvNewClient Background, EvObjects client (Deadline (Now env w1 + 10)) bucket]
               @ replicate (Suc (length names)) (EvNext it)
               @ [EvCancel (Deadline (Now env w1 + 10)), EvClientClose client],
            snd (ClientClose env client w3)))"
  using list_loop_yields[OF ys, of bucket "[]"]
  by (simp add: List_client_ok[OF nc ob])

lemma List_returns:
  assumes nc: "NewClient env Background w = (Inr client, w1)"
    and ob: "Objects env client (Deadline (Now env w1 + 10)) bucket w1 = (it, w2)"
    and ret: "List env bucket (tr, w) = Some (r, s')"
  shows "\<exists>names fin w3. yields env it names w2 (fin, w3) \<and>
     r = (names, listing_error env bucket fin) \<and>
     s' = (tr @ [EvNewClient Background, EvObjects client (Deadline (Now env w1 + 10)) bucket]
               @ replicate (Suc (length names)) (EvNext it)
               @ [EvCancel (Deadline (Now env w1 + 10)), EvClientClose client],
           snd (ClientClose env client w3))"
proof -
  from ret obtain r' s'' where
    lp: "list_loop env it bucket []
           (tr @ [EvNewClient Background, EvObjects client (Deadline (Now env w1 + 10)) bucket], w2)
         = Some (r', s'')"
    by (auto simp: List_client_ok[OF nc ob] split: option.splits)
  from list_loop_returns[OF lp] obtain names fin w3 where
    ys: "yields env it names w2 (fin, w3)" by auto
  from List_run[OF nc ob ys, of tr] ret ys show ?thesis by auto
qed

subsection \<open>The in-memory service\<close>

lemma map_of_put: "map_of (put k v kvs) k' = (if k' = k then Some v else map_of kvs k')"
  by (induction kvs) (auto simp: put_def)

lemma take3_split:
  "list_all P (take 3 fs) =
   (list_all P (take 1 fs) \<and> list_all P (take 1 (tl fs)) \<and> list_all P (take 1 (tl (tl fs))))"
  by (cases fs; cases "tl fs"; cases "tl (tl fs)") (auto simp: eval_nat_numeral)

lemma mem_NewClient_objects:
  "mem_NewClient ctx w = (x, w1) \<Longrightarrow> objects w1 = objects w \<and> faults w1 = tl (faults w) \<and>
     ((\<exists>c. x = Inr c) = list_all (\<lambda>f. f = None) (take 1 (faults w)))"
  by (auto simp: mem_NewClient_def pop_fault_def tick_def split: list.splits option.splits)

lemma mem_NewWriter_opens:
  "mem_NewWriter c ctx bucket object w1 = (wc, w2) \<Longrightarrow>
   \<exists>h. wc = Writer h \<and> map_of (writers w2) h = Some ((bucket, object), [])"
  by (auto simp: mem_NewWriter_def Let_def map_of_put)

lemma mem_Copy_buffers:
  "mem_Copy (Writer h) B w2 = ((n, None), w3) \<Longrightarrow> map_of (writers w2) h = Some (k, buf) \<Longrightarrow>
   map_of (writers w3) h = Some (k, buf @ B)"
  by (auto simp: pop_fault_def tick_def map_of_put split: list.splits option.splits)

lemma mem_WriterClose_commits:
  "mem_WriterClose (Writer h) w3 = (None, w4) \<Longrightarrow> map_of (writers w3) h = Some (k, buf) \<Longrightarrow>
   map_of (objects w4) k = Some buf"
  by (auto simp: pop_fault_def tick_def map_of_put split: list.splits option.splits)

lemma mem_Upload_commits:
  assumes "Upload mem_env B bucket object s = (None, s1)"
  shows "map_of (objects (snd s1)) (bucket, object) = Some B"
proof -
  obtain tr w where s: "s = (tr, w)" by (cases s)
  from Upload_success_steps[OF assms[unfolded s]] obtain client w1 wc w2 n w3 w4 where
    nw: "mem_NewWriter client (Deadline (clock w1 + 50)) bucket object w1 = (wc, w2)"
    and cp: "mem_Copy wc B w2 = ((n, None), w3)"
    and cl: "mem_WriterClose wc w3 = (None, w4)"
    and fin: "snd s1 = snd (mem_ClientClose client w4)"
    by (auto simp: mem_env_def)
  from mem_NewWriter_opens[OF nw] obtain h where wc: "wc = Writer h"
    and op: "map_of (writers w2) h = Some ((bucket, object), [])" by auto
  from mem_Copy_buffers[OF cp[unfolded wc] op]
  have "map_of (writers w3) h = Some ((bucket, object), B)" by simp
  from mem_WriterClose_commits[OF cl[unfolded wc] this]
  have "map_of (objects w4) (bucket, object) = Some B" .
  then show ?thesis by (simp add: fin mem_ClientClose_def tick_def)
qed

lemma mem_NewReader_reads:
  "mem_NewReader c ctx bucket object w1 = (x, w2) \<Longrightarrow>
   map_of (objects w1) (bucket, object) = Some B \<Longrightarrow>
   faults w2 = tl (faults w1) \<and>
   (case x of Inl e \<Rightarrow> True | Inr rc \<Rightarrow> \<exists>h. rc = Reader h \<and> map_of (readers w2) h = Some B) \<and>
   ((\<exists>rc. x = Inr rc) = list_all (\<lambda>f. f = None) (take 1 (faults w1)))"
  by (auto simp: mem_NewReader_def pop_fault_def tick_def map_of_put Let_def
      split: list.splits option.splits)

lemma mem_ReadAll_whole:
  "mem_ReadAll (Reader h) w2 = ((data, err), w3) \<Longrightarrow> map_of (readers w2) h = Some B \<Longrightarrow>
   (err = None \<longrightarrow> data = B) \<and> ((err = None) = list_all (\<lambda>f. f = None) (take 1 (faults w2)))"
  by (auto simp: pop_fault_def tick_def split: list.splits option.splits)

lemma mem_Get_stored:
  assumes st: "map_of (objects (snd s2)) (bucket, object) = Some B"
    and gt: "Get mem_env bucket object s2 = ((data, err), s3)"
  shows "(case err of None \<Rightarrow> data = B | Some e \<Rightarrow> data = []) \<and>
         ((err = None) = list_all (\<lambda>f. f = None) (take 3 (faults (snd s2))))"
proof -
  obtain tr w where s: "s2 = (tr, w)" by (cases s2)
  from st s have stw: "map_of (objects w) (bucket, object) = Some B" by simp
  let ?ok = "list_all (\<lambda>f. f = None)"
  note f3 = take3_split[of "\<lambda>f. f = None" "faults w"]
  from Get_steps[OF gt[unfolded s]]
  consider
    (no_client) e w1 where "mem_NewClient Background w = (Inl e, w1)" "data = []" "err \<noteq> None"
  | (not_opened) client w1 e w2 where "mem_NewClient Background w = (Inr client, w1)"
      "mem_NewReader client (Deadline (clock w1 + 50)) bucket object w1 = (Inl e, w2)"
      "data = []" "err \<noteq> None"
  | (cut_short) client w1 rc w2 part e w3 where "mem_NewClient Background w = (Inr client, w1)"
      "mem_NewReader client (Deadline (clock w1 + 50)) bucket object w1 = (Inr rc, w2)"
      "mem_ReadAll rc w2 = ((part, Some e), w3)" "data = []" "err \<noteq> None"
  | (whole) client w1 rc w2 w3 where "mem_NewClient Background w = (Inr client, w1)"
      "mem_NewReader client (Deadline (clock w1 + 50)) bucket object w1 = (Inr rc, w2)"
      "mem_ReadAll rc w2 = ((data, None), w3)" "err = None"
    by (auto simp: mem_env_def)
  then show ?thesis
  proof cases
    case no_client
    from mem_NewClient_objects[OF no_client(1)] f3 no_client(2,3) show ?thesis
      by (auto simp: s)
  next
    case not_opened
    note c1 = mem_NewClient_objects[OF not_opened(1)]
    from c1 stw have "map_of (objects w1) (bucket, object) = Some B" by simp
    from mem_NewReader_reads[OF not_opened(2) this] c1 f3 not_opened(3,4) show ?thesis
      by (auto simp: s)
  next
    case cut_short
    note c1 = mem_NewClient_objects[OF cut_short(1)]
    from c1 stw have "map_of (objects w1) (bucket, object) = Some B" by simp
    note c2 = mem_NewReader_reads[OF cut_short(2) this]
    then obtain h where rc: "rc = Reader h" and rd: "map_of (readers w2) h = Some B" by auto
    from mem_ReadAll_whole[OF cut_short(3)[unfolded rc] rd] c1 c2 f3 cut_short(4,5) show ?thesis
      by (auto simp: s)
  next
    case whole
    note c1 = mem_NewClient_objects[OF whole(1)]
    from c1 stw have "map_of (objects w1) (bucket, object) = Some B" by simp
    note c2 = mem_NewReader_reads[OF whole(2) this]
    then obtain h where rc: "rc = Reader h" and rd: "map_of (readers w2) h = Some B" by auto
    from mem_ReadAll_whole[OF whole(3)[unfolded rc] rd] c1 c2 f3 whole(4) show ?thesis
      by (auto simp: s)
  qed
qed

lemma mem_Quote_escapes:
  "mem_Quote [CHR ''a'', CHR 0x22, CHR ''b'', CHR 0x5C, CHR 0x0A] =
     [CHR 0x22, CHR ''a'', CHR 0x5C, CHR 0x22, CHR ''b'', CHR 0x5C, CHR 0x5C,
      CHR 0x5C, CHR ''n'', CHR 0x22]"
  by (simp add: mem_Quote_def quote_byte_def)

lemma mem_Next_clients: "mem_Next it w = (r, w') \<Longrightarrow> clients w' = clients w"
  by (cases it) (auto simp: pop_fault_def tick_def split: list.splits option.splits)

lemma mem_yields_clients:
  "yields mem_env it names w (fin, w') \<Longrightarrow> clients w' = clients w"
proof (induction names arbitrary: w)
  case Nil
  then have "mem_Next it w = (fin, w')"
    by (auto simp: mem_env_def split: next_result.splits)
  then show ?case by (rule mem_Next_clients)
next
  case (Cons n ns)
  then obtain a w1 where nx: "mem_Next it w = (Item a, w1)"
    and rest: "yields mem_env it ns w1 (fin, w')"
    by (auto simp: mem_env_def split: prod.splits next_result.splits)
  from Cons.IH[OF rest] mem_Next_clients[OF nx] show ?case by simp
qed

lemma mem_List_world:
  "\<exists>s'. List mem_env ''b'' ([], world []) = Some (([''x'', ''y''], None), s')"
proof -
  let ?w = "world []"
  let ?w1 = "snd (mem_NewClient Background ?w)"
  let ?w2 = "snd (mem_Objects (Client 0) (Deadline 113) ''b'' ?w1)"
  let ?w3 = "snd (mem_Next (Iter 1) (snd (mem_Next (Iter 1) (snd (mem_Next (Iter 1) ?w2)))))"
  have 1: "NewClient mem_env Background ?w = (Inr (Client 0), ?w1)"
    by (simp add: mem_defs)
  have 2: "Objects mem_env (Client 0) (Deadline (Now mem_env ?w1 + 10)) ''b'' ?w1 = (Iter 1, ?w2)"
    by (simp add: mem_defs)
  have 3: "yields mem_env (Iter 1) [''x'', ''y''] ?w2 (IterDone, ?w3)"
    by (simp add: mem_defs)
  from list_loop_yields[OF 3, of "''b''" "[]"] show ?thesis
    by (simp add: List_client_ok[OF 1 2] listing_error_def)
qed

lemma mem_List_empty:
  "List mem_env ''empty'' ([], world []) =
     Some (([], None),
           ([EvNewClient Background, EvObjects (Client 0) (Deadline 113) ''empty'',
             EvNext (Iter 1), EvCancel (Deadline 113), EvClientClose (Client 0)],
            snd (mem_ClientClose (Client 0)
              (snd (mem_Next (Iter 1)
                (snd (mem_Objects (Client 0) (Deadline 113) ''empty''
                  (snd (mem_NewClient Background (world []))))))))))"
proof -
  let ?w = "world []"
  let ?w1 = "snd (mem_NewClient Background ?w)"
  let ?w2 = "snd (mem_Objects (Client 0) (Deadline 113) ''empty'' ?w1)"
  let ?w3 = "snd (mem_Next (Iter 1) ?w2)"
  have 1: "NewClient mem_env Background ?w = (Inr (Client 0), ?w1)"
    by (simp add: mem_defs)
  have 2: "Objects mem_env (Client 0) (Deadline (Now mem_env ?w1 + 10)) ''empty'' ?w1 = (Iter 1, ?w2)"
    by (simp add: mem_defs)
  have 3: "yields mem_env (Iter 1) [] ?w2 (IterDone, ?w3)"
    by (simp add: mem_defs)
  have 4: "Now mem_env ?w1 + 10 = 113" "ClientClose mem_env = mem_ClientClose"
    by (simp_all add: mem_defs)
  from list_loop_yields[OF 3, of "''empty''" "[]"] show ?thesis
    by (simp add: List_client_ok[OF 1 2] listing_error_def 4)
qed

subsection \<open>C1: upload, then get\<close>

text \<open>
  C1, as stated: if \<^verbatim>\<open>Upload\<close> of the bytes \<open>B\<close> to (bucket, object) returns success,
  a later \<^verbatim>\<open>Get\<close> of that pair, with no upload to it in between, returns exactly \<open>B\<close>.

  This is too strong: \<^verbatim>\<open>Get\<close> builds a client of its own and returns nil and an error
  when that fails, whatever the bucket holds. Below, the upload succeeds and the
  following \<^verbatim>\<open>Get\<close> fails in \<^verbatim>\<open>storage.NewClient\<close>.
\<close>

theorem roundtrip_counterexample:
  "fst (Upload mem_env [7, 8] ''b'' ''o''
         ([], world [None, None, None, Some ''dial tcp: i/o timeout''])) = None \<and>
   fst (Get mem_env ''b'' ''o''
         (snd (Upload mem_env [7, 8] ''b'' ''o''
                ([], world [None, None, None, Some ''dial tcp: i/o timeout''])))) =
     ([], Some ''storage.NewClient: dial tcp: i/o timeout'')"
  by (simp add: Upload_def Get_def facade_defs mem_defs)

text \<open>
  C1, amended: over the in-memory service, if \<^verbatim>\<open>Upload\<close> of \<open>B\<close> to (bucket, object)
  returns success, then \<^verbatim>\<open>Get\<close> of that pair in any later world where the pair holds
  what the upload left (no upload to it in between) returns exactly \<open>B\<close> when it returns
  no error, and empty content when it returns an error; and it returns no error if and
  only if none of its three steps (client construction, open, read) is made to fail: a
  step that fails always surfaces as an error.
\<close>

theorem roundtrip:
  assumes up: "Upload mem_env B bucket object s = (None, s1)"
    and same: "map_of (objects (snd s2)) (bucket, object) = map_of (objects (snd s1)) (bucket, object)"
    and gt: "Get mem_env bucket object s2 = ((data, err), s3)"
  shows "(case err of None \<Rightarrow> data = B | Some e \<Rightarrow> data = []) \<and>
         ((err = None) = list_all (\<lambda>f. f = None) (take 3 (faults (snd s2))))"
proof -
  from mem_Upload_commits[OF up] same
  have "map_of (objects (snd s2)) (bucket, object) = Some B" by simp
  from mem_Get_stored[OF this gt] show ?thesis .
qed

text \<open>
  The amended C1 at a concrete input: two bytes uploaded and read back.
\<close>

theorem roundtrip_witness:
  "fst (Upload mem_env [7, 8] ''b'' ''o'' ([], world [])) = None \<and>
   fst (Get mem_env ''b'' ''o'' (snd (Upload mem_env [7, 8] ''b'' ''o'' ([], world [])))) =
     ([7, 8], None)"
proof -
  let ?s = "([], world []) :: mem st"
  let ?s1 = "snd (Upload mem_env [7, 8] ''b'' ''o'' ?s)"
  let ?g = "Get mem_env ''b'' ''o'' ?s1"
  have u: "fst (Upload mem_env [7, 8] ''b'' ''o'' ?s) = None"
    by (simp add: Upload_def facade_defs mem_defs)
  then have up: "Upload mem_env [7, 8] ''b'' ''o'' ?s = (None, ?s1)"
    by (simp add: prod_eq_iff)
  have gt: "?g = ((fst (fst ?g), snd (fst ?g)), snd ?g)" by simp
  have fl: "list_all (\<lambda>f. f = None) (take 3 (faults (snd ?s1)))"
    by (simp add: Upload_def facade_defs mem_defs)
  from roundtrip[OF up refl gt] fl have "snd (fst ?g) = None" "fst (fst ?g) = [7, 8]"
    by auto
  with u show ?thesis by (simp add: prod_eq_iff)
qed

subsection \<open>C2: a listing that fails part-way\<close>

text \<open>
  C2: if the iterator yields the names \<open>names\<close> and its next answer is an error \<open>e\<close>,
  \<^verbatim>\<open>List\<close> returns exactly \<open>names\<close> together with the error
  \<^verbatim>\<open>Bucket(%q).Objects: e\<close>; the names gathered so far are not dropped.
\<close>

theorem List_partial_listing:
  assumes "NewClient env Background w = (Inr client, w1)"
    and "Objects env client (Deadline (Now env w1 + 10)) bucket w1 = (it, w2)"
    and "yields env it names w2 (IterErr e, w3)"
  shows "List env bucket (tr, w) =
     Some ((names, Some (''Bucket('' @ Quote env bucket @ '').Objects: '' @ e)),
           (tr @ [EvNewClient Background, EvObjects client (Deadline (Now env w1 + 10)) bucket]
               @ replicate (Suc (length names)) (EvNext it)
               @ [EvCancel (Deadline (Now env w1 + 10)), EvClientClose client],
            snd (ClientClose env client w3)))"
  using list_loop_yields[OF assms(3), of bucket "[]"]
  by (simp add: List_client_ok[OF assms(1,2)] listing_error_def)

text \<open>
  C2 at a concrete input: two names, then the third answer fails.
\<close>

theorem List_partial_listing_witness:
  "map_option fst (List mem_env ''b'' ([], world [None, None, None, Some ''rpc error: unavailable''])) =
     Some ([''x'', ''y''],
           Some (''Bucket('' @ [CHR 0x22] @ ''b'' @ [CHR 0x22] @ '').Objects: rpc error: unavailable''))"
proof -
  let ?w = "world [None, None, None, Some ''rpc error: unavailable'']"
  let ?w1 = "snd (mem_NewClient Background ?w)"
  let ?w2 = "snd (mem_Objects (Client 0) (Deadline 113) ''b'' ?w1)"
  let ?w3 = "snd (mem_Next (Iter 1) (snd (mem_Next (Iter 1) (snd (mem_Next (Iter 1) ?w2)))))"
  have 1: "NewClient mem_env Background ?w = (Inr (Client 0), ?w1)"
    by (simp add: mem_defs)
  have 2: "Objects mem_env (Client 0) (Deadline (Now mem_env ?w1 + 10)) ''b'' ?w1 = (Iter 1, ?w2)"
    by (simp add: mem_defs)
  have 3: "yields mem_env (Iter 1) [''x'', ''y''] ?w2 (IterErr ''rpc error: unavailable'', ?w3)"
    by (simp add: mem_defs)
  from List_partial_listing[OF 1 2 3, of "[]"] show ?thesis
    by (simp add: mem_defs)
qed

subsection \<open>C3: where the deadline starts\<close>

text \<open>
  C3, as stated: every call of \<^verbatim>\<open>Upload\<close> and \<^verbatim>\<open>Get\<close> runs under a deadline of 50
  seconds, and every call of \<^verbatim>\<open>List\<close> under one of 10 seconds, counted from the
  entry of the call, so that every step, client construction included, is bounded by it.

  The code builds the client under \<^verbatim>\<open>context.Background()\<close> and calls
  \<^verbatim>\<open>context.WithTimeout\<close> only afterwards. In the world below the clock stands at 100
  at entry and client construction takes 3 seconds: the client is built under no
  deadline, and the steps after it under the deadline 153 (or 113), not 150 (or 110).
\<close>

theorem deadline_from_entry_counterexample:
  "\<not> under_deadline (Now mem_env (world []) + 50)
       (fst (snd (Upload mem_env [9] ''b'' ''o'' ([], world [])))) \<and>
   \<not> under_deadline (Now mem_env (world []) + 50)
       (fst (snd (Get mem_env ''b'' ''x'' ([], world [])))) \<and>
   (\<exists>r tr' w'. List mem_env ''empty'' ([], world []) = Some (r, (tr', w')) \<and>
      \<not> under_deadline (Now mem_env (world []) + 10) tr')"
proof -
  let ?w = "world []"
  have u: "\<not> under_deadline (Now mem_env ?w + 50)
       (fst (snd (Upload mem_env [9] ''b'' ''o'' ([], ?w))))"
    by (simp add: Upload_def facade_defs mem_defs under_deadline_def)
  have g: "\<not> under_deadline (Now mem_env ?w + 50)
       (fst (snd (Get mem_env ''b'' ''x'' ([], ?w))))"
    by (simp add: Get_def facade_defs mem_defs under_deadline_def)
  have "\<not> under_deadline (Now mem_env ?w + 10)
      [EvNewClient Background, EvObjects (Client 0) (Deadline 113) ''empty'',
       EvNext (Iter 1), EvCancel (Deadline 113), EvClientClose (Client 0)]"
    by (simp add: under_deadline_def)
  with mem_List_empty u g show ?thesis by blast
qed

text \<open>
  C3, amended: every call of \<^verbatim>\<open>Upload\<close> and \<^verbatim>\<open>Get\<close> runs under a deadline of 50
  seconds, and every call of \<^verbatim>\<open>List\<close> under one of 10 seconds, counted from the time
  client construction has returned, so that every step after client construction is
  bounded by it; client construction itself runs under the background context, which
  has no deadline.

  In terms of the calls: with \<open>w1\<close> the world that \<^verbatim>\<open>storage.NewClient\<close>, called under
  \<open>Background\<close>, has left, the write channel, the read channel and the iterator are
  opened under \<open>Deadline (Now env w1 + 50)\<close> (or \<open>+ 10\<close>), and the copy and the close of the
  writer, the read and the close of the reader, and every \<^verbatim>\<open>Next\<close> are performed on
  the channel or iterator that this very call returned; the result, the log and the
  final world of each function are those of exactly these calls. (That a step started
  under a deadline ends by it is the library's part.)
\<close>

theorem deadline_after_client:
  assumes nc: "NewClient env Background w = (Inr client, w1)"
  shows
   "(\<forall>wc w2 n cerr w3 x w4.
       NewWriter env client (Deadline (Now env w1 + 50)) bucket object w1 = (wc, w2) \<and>
       Copy env wc file w2 = ((n, cerr), w3) \<and>
       WriterClose env wc w3 = (x, w4) \<longrightarrow>
       Upload env file bucket object (tr, w) =
         (case cerr of
            Some e \<Rightarrow>
              (Some (''io.Copy: '' @ e),
               (tr @ [EvNewClient Background,
                      EvNewWriter client (Deadline (Now env w1 + 50)) bucket object,
                      EvCopy wc,
                      EvCancel (Deadline (Now env w1 + 50)), EvClientClose client],
                snd (ClientClose env client w3)))
          | None \<Rightarrow>
              (case x of Some e \<Rightarrow> Some (''Writer.Close: '' @ e) | None \<Rightarrow> None,
               (tr @ [EvNewClient Background,
                      EvNewWriter client (Deadline (Now env w1 + 50)) bucket object,
                      EvCopy wc, EvWriterClose wc,
                      EvCancel (Deadline (Now env w1 + 50)), EvClientClose client],
                snd (ClientClose env client w4))))) \<and>
    (\<forall>e w2.
       NewReader env client (Deadline (Now env w1 + 50)) bucket object w1 = (Inl e, w2) \<longrightarrow>
       Get env bucket object (tr, w) =
         (([], Some (''Object('' @ Quote env object @ '').NewReader: '' @ e)),
          (tr @ [EvNewClient Background,
                 EvNewReader client (Deadline (Now env w1 + 50)) bucket object,
                 EvCancel (Deadline (Now env w1 + 50)), EvClientClose client],
           snd (ClientClose env client w2)))) \<and>
    (\<forall>rc w2 data rerr w3.
       NewReader env client (Deadline (Now env w1 + 50)) bucket object w1 = (Inr rc, w2) \<and>
       ReadAll env rc w2 = ((data, rerr), w3) \<longrightarrow>
       Get env bucket object (tr, w) =
         ((case rerr of Some e \<Rightarrow> ([], Some (''ioutil.ReadAll: '' @ e)) | None \<Rightarrow> (data, None)),
          (tr @ [EvNewClient Background,
                 EvNewReader client (Deadline (Now env w1 + 50)) bucket object,
                 EvReadAll rc, EvReaderClose rc,
                 EvCancel (Deadline (Now env w1 + 50)), EvClientClose client],
           snd (ClientClose env client (snd (ReaderClose env rc w3)))))) \<and>
    (\<forall>it w2 names fin w3.
       Objects env client (Deadline (Now env w1 + 10)) bucket w1 = (it, w2) \<and>
       yields env it names w2 (fin, w3) \<longrightarrow>
       List env bucket (tr, w) =
         Some ((names, listing_error env bucket fin),
               (tr @ [EvNewClient Background, EvObjects client (Deadline (Now env w1 + 10)) bucket]
                   @ replicate (Suc (length names)) (EvNext it)
                   @ [EvCancel (Deadline (Now env w1 + 10)), EvClientClose client],
                snd (ClientClose env client w3))))"
  by (intro conjI allI impI; (elim conjE)?)
     (rule Upload_run[OF nc] Get_run_open_fails[OF nc] Get_run_opened[OF nc] List_run[OF nc];
      assumption)+

text \<open>
  The amended C3 at a concrete input: entry at 100, client built at 103, deadline 153
  for \<^verbatim>\<open>Upload\<close> and \<^verbatim>\<open>Get\<close>, and 113 for \<^verbatim>\<open>List\<close>; results and logs are those
  of the calls made under these deadlines.
\<close>

theorem deadline_after_client_witness:
  "Now mem_env (world []) = 100 \<and>
   Now mem_env (snd (NewClient mem_env Background (world []))) = 103 \<and>
   fst (Upload mem_env [9] ''b'' ''o'' ([], world [])) = None \<and>
   fst (snd (Upload mem_env [9] ''b'' ''o'' ([], world []))) =
     [EvNewClient Background, EvNewWriter (Client 0) (Deadline 153) ''b'' ''o'',
      EvCopy (Writer 1), EvWriterClose (Writer 1), EvCancel (Deadline 153),
      EvClientClose (Client 0)] \<and>
   fst (Get mem_env ''b'' ''x'' ([], world [])) = ([1, 2, 3, 4], None) \<and>
   fst (snd (Get mem_env ''b'' ''x'' ([], world []))) =
     [EvNewClient Background, EvNewReader (Client 0) (Deadline 153) ''b'' ''x'',
      EvReadAll (Reader 1), EvReaderClose (Reader 1), EvCancel (Deadline 153),
      EvClientClose (Client 0)] \<and>
   map_option (\<lambda>r. (fst r, fst (snd r))) (List mem_env ''b'' ([], world [])) =
     Some (([''x'', ''y''], None),
           [EvNewClient Background, EvObjects (Client 0) (Deadline 113) ''b'',
            EvNext (Iter 1), EvNext (Iter 1), EvNext (Iter 1),
            EvCancel (Deadline 113), EvClientClose (Client 0)])"
proof -
  let ?w = "world []"
  let ?w1 = "snd (mem_NewClient Background ?w)"
  let ?u2 = "snd (mem_NewWriter (Client 0) (Deadline 153) ''b'' ''o'' ?w1)"
  let ?u3 = "snd (mem_Copy (Writer 1) [9] ?u2)"
  let ?u4 = "snd (mem_WriterClose (Writer 1) ?u3)"
  let ?g2 = "snd (mem_NewReader (Client 0) (Deadline 153) ''b'' ''x'' ?w1)"
  let ?g3 = "snd (mem_ReadAll (Reader 1) ?g2)"
  let ?l2 = "snd (mem_Objects (Client 0) (Deadline 113) ''b'' ?w1)"
  let ?l3 = "snd (mem_Next (Iter 1) (snd (mem_Next (Iter 1) (snd (mem_Next (Iter 1) ?l2)))))"
  have nc: "NewClient mem_env Background ?w = (Inr (Client 0), ?w1)"
    by (simp add: mem_defs)
  have n: "Now mem_env ?w = 100" "Now mem_env ?w1 = 103"
    by (simp_all add: mem_defs)
  have u: "NewWriter mem_env (Client 0) (Deadline (Now mem_env ?w1 + 50)) ''b'' ''o'' ?w1 = (Writer 1, ?u2) \<and>
      Copy mem_env (Writer 1) [9] ?u2 = ((1, None), ?u3) \<and>
      WriterClose mem_env (Writer 1) ?u3 = (None, ?u4)"
    by (simp add: mem_defs)
  have g: "NewReader mem_env (Client 0) (Deadline (Now mem_env ?w1 + 50)) ''b'' ''x'' ?w1 = (Inr (Reader 1), ?g2) \<and>
      ReadAll mem_env (Reader 1) ?g2 = (([1, 2, 3, 4], None), ?g3)"
    by (simp add: mem_defs)
  have l: "Objects mem_env (Client 0) (Deadline (Now mem_env ?w1 + 10)) ''b'' ?w1 = (Iter 1, ?l2) \<and>
      yields mem_env (Iter 1) [''x'', ''y''] ?l2 (IterDone, ?l3)"
    by (simp add: mem_defs)
  note d = deadline_after_client[OF nc, of "''b''" _ "[9]" "[]"]
  from d[of "''o''", THEN conjunct1, rule_format, OF u]
  have 1: "Upload mem_env [9] ''b'' ''o'' ([], ?w) =
      (None, ([EvNewClient Background, EvNewWriter (Client 0) (Deadline 153) ''b'' ''o'',
               EvCopy (Writer 1), EvWriterClose (Writer 1), EvCancel (Deadline 153),
               EvClientClose (Client 0)],
              snd (ClientClose mem_env (Client 0) ?u4)))"
    by (simp add: n)
  from d[of "''x''", THEN conjunct2, THEN conjunct2, THEN conjunct1, rule_format, OF g]
  have 2: "Get mem_env ''b'' ''x'' ([], ?w) =
      (([1, 2, 3, 4], None),
       ([EvNewClient Background, EvNewReader (Client 0) (Deadline 153) ''b'' ''x'',
         EvReadAll (Reader 1), EvReaderClose (Reader 1), EvCancel (Deadline 153),
         EvClientClose (Client 0)],
        snd (ClientClose mem_env (Client 0) (snd (ReaderClose mem_env (Reader 1) ?g3)))))"
    by (simp add: n)
  from d[of "''x''", THEN conjunct2, THEN conjunct2, THEN conjunct2, rule_format, OF l]
  have 3: "List mem_env ''b'' ([], ?w) =
      Some (([''x'', ''y''], None),
            ([EvNewClient Background, EvObjects (Client 0) (Deadline 113) ''b'',
              EvNext (Iter 1), EvNext (Iter 1), EvNext (Iter 1),
              EvCancel (Deadline 113), EvClientClose (Client 0)],
             snd (ClientClose mem_env (Client 0) ?l3)))"
    by (simp add: n listing_error_def)
  from n 1 2 3 show ?thesis by (simp add: mem_defs)
qed

subsection \<open>C4: when Upload succeeds\<close>

text \<open>
  C4: \<^verbatim>\<open>Upload\<close> returns nil if and only if client construction, the copy and the
  close of the writer all returned without error; and when the close of the writer
  fails with \<open>e\<close> after a complete copy, \<^verbatim>\<open>Upload\<close> returns the error
  \<^verbatim>\<open>Writer.Close: e\<close>.
\<close>

theorem Upload_success_iff_all_steps:
  "(fst (Upload env file bucket object (tr, w)) = None) =
     (\<exists>client w1 wc w2 n w3 w4.
        NewClient env Background w = (Inr client, w1) \<and>
        NewWriter env client (Deadline (Now env w1 + 50)) bucket object w1 = (wc, w2) \<and>
        Copy env wc file w2 = ((n, None), w3) \<and>
        WriterClose env wc w3 = (None, w4)) \<and>
   (\<forall>client w1 wc w2 n w3 e w4.
        NewClient env Background w = (Inr client, w1) \<and>
        NewWriter env client (Deadline (Now env w1 + 50)) bucket object w1 = (wc, w2) \<and>
        Copy env wc file w2 = ((n, None), w3) \<and>
        WriterClose env wc w3 = (Some e, w4) \<longrightarrow>
        fst (Upload env file bucket object (tr, w)) = Some (''Writer.Close: '' @ e))"
proof (intro conjI allI impI)
  show "(fst (Upload env file bucket object (tr, w)) = None) =
     (\<exists>client w1 wc w2 n w3 w4.
        NewClient env Background w = (Inr client, w1) \<and>
        NewWriter env client (Deadline (Now env w1 + 50)) bucket object w1 = (wc, w2) \<and>
        Copy env wc file w2 = ((n, None), w3) \<and>
        WriterClose env wc w3 = (None, w4))"
    by (auto simp: Upload_def call_simp deferred_def WithTimeout_def Let_def
        split: prod.splits sum.splits option.splits)
next
  fix client w1 wc w2 n w3 e w4
  assume "NewClient env Background w = (Inr client, w1) \<and>
        NewWriter env client (Deadline (Now env w1 + 50)) bucket object w1 = (wc, w2) \<and>
        Copy env wc file w2 = ((n, None), w3) \<and>
        WriterClose env wc w3 = (Some e, w4)"
  then show "fst (Upload env file bucket object (tr, w)) = Some (''Writer.Close: '' @ e)"
    by (simp add: Upload_def call_simp deferred_def WithTimeout_def Let_def)
qed

text \<open>
  C4 at concrete inputs: all steps succeed; and the close of the writer fails.
\<close>

theorem Upload_success_iff_all_steps_witness:
  "fst (Upload mem_env [9] ''b'' ''o'' ([], world [])) = None \<and>
   fst (Upload mem_env [9] ''b'' ''o'' ([], world [None, None, Some ''googleapi: Error 503''])) =
     Some ''Writer.Close: googleapi: Error 503''"
proof -
  let ?w = "world [None, None, Some ''googleapi: Error 503'']"
  let ?w1 = "snd (mem_NewClient Background ?w)"
  let ?w2 = "snd (mem_NewWriter (Client 0) (Deadline 153) ''b'' ''o'' ?w1)"
  let ?w3 = "snd (mem_Copy (Writer 1) [9] ?w2)"
  let ?w4 = "snd (mem_WriterClose (Writer 1) ?w3)"
  have a: "NewClient mem_env Background ?w = (Inr (Client 0), ?w1) \<and>
      NewWriter mem_env (Client 0) (Deadline (Now mem_env ?w1 + 50)) ''b'' ''o'' ?w1 = (Writer 1, ?w2) \<and>
      Copy mem_env (Writer 1) [9] ?w2 = ((1, None), ?w3) \<and>
      WriterClose mem_env (Writer 1) ?w3 = (Some ''googleapi: Error 503'', ?w4)"
    by (simp add: mem_defs)
  let ?v = "world []"
  let ?v1 = "snd (mem_NewClient Background ?v)"
  let ?v2 = "snd (mem_NewWriter (Client 0) (Deadline 153) ''b'' ''o'' ?v1)"
  let ?v3 = "snd (mem_Copy (Writer 1) [9] ?v2)"
  let ?v4 = "snd (mem_WriterClose (Writer 1) ?v3)"
  have b: "NewClient mem_env Background ?v = (Inr (Client 0), ?v1) \<and>
      NewWriter mem_env (Client 0) (Deadline (Now mem_env ?v1 + 50)) ''b'' ''o'' ?v1 = (Writer 1, ?v2) \<and>
      Copy mem_env (Writer 1) [9] ?v2 = ((1, None), ?v3) \<and>
      WriterClose mem_env (Writer 1) ?v3 = (None, ?v4)"
    by (simp add: mem_defs)
  from Upload_success_iff_all_steps[of mem_env "[9]" "''b''" "''o''" "[]" ?v] b
  have "fst (Upload mem_env [9] ''b'' ''o'' ([], ?v)) = None" by blast
  moreover from Upload_success_iff_all_steps[of mem_env "[9]" "''b''" "''o''" "[]" ?w] a
  have "fst (Upload mem_env [9] ''b'' ''o'' ([], ?w)) = Some (''Writer.Close: '' @ ''googleapi: Error 503'')"
    by blast
  ultimately show ?thesis by simp
qed

subsection \<open>C5: an object that cannot be opened\<close>

text \<open>
  C5: when the client is built and opening the reader fails with \<open>e\<close>, \<^verbatim>\<open>Get\<close> returns
  nil content and the error \<^verbatim>\<open>Object(%q).NewReader: e\<close>, which carries the object name
  as \<^verbatim>\<open>%q\<close> renders it.
\<close>

theorem Get_open_failure:
  assumes "NewClient env Background w = (Inr client, w1)"
    and "NewReader env client (Deadline (Now env w1 + 50)) bucket object w1 = (Inl e, w2)"
  shows "fst (Get env bucket object (tr, w)) =
     ([], Some (''Object('' @ Quote env object @ '').NewReader: '' @ e))"
  using assms
  by (simp add: Get_def call_simp deferred_def WithTimeout_def Let_def)

text \<open>
  C5 at a concrete input: an object the bucket does not hold.
\<close>

theorem Get_open_failure_witness:
  "fst (Get mem_env ''b'' ''does-not-exist'' ([], world [])) =
     ([], Some (''Object('' @ [CHR 0x22] @ ''does-not-exist'' @ [CHR 0x22]
                 @ '').NewReader: storage: object doesn't exist''))"
proof -
  let ?w = "world []"
  let ?w1 = "snd (mem_NewClient Background ?w)"
  let ?w2 = "snd (mem_NewReader (Client 0) (Deadline 153) ''b'' ''does-not-exist'' ?w1)"
  have 1: "NewClient mem_env Background ?w = (Inr (Client 0), ?w1)"
    by (simp add: mem_defs)
  have 2: "NewReader mem_env (Client 0) (Deadline (Now mem_env ?w1 + 50)) ''b'' ''does-not-exist'' ?w1 =
      (Inl ''storage: object doesn't exist'', ?w2)"
    by (simp add: mem_defs)
  from Get_open_failure[OF 1 2, of "[]"] show ?thesis
    by (simp add: mem_defs)
qed

subsection \<open>C6: no content with an error\<close>

text \<open>
  C6: whenever \<^verbatim>\<open>Get\<close> returns a non-nil error, the bytes it returns are nil.
\<close>

theorem Get_error_no_content:
  assumes "snd (fst (Get env bucket object s)) \<noteq> None"
  shows "fst (fst (Get env bucket object s)) = []"
  using assms
  by (cases s) (auto simp: Get_def call_simp deferred_def WithTimeout_def Let_def
      split: prod.splits sum.splits option.splits)

text \<open>
  C6 at a concrete input: the read fails after delivering two of four bytes, and
  \<^verbatim>\<open>Get\<close> returns none of them.
\<close>

theorem Get_error_no_content_witness:
  "snd (fst (Get mem_env ''b'' ''x'' ([], world [None, None, Some ''unexpected EOF'']))) =
     Some ''ioutil.ReadAll: unexpected EOF'' \<and>
   fst (ReadAll mem_env (Reader 1)
         (snd (NewReader mem_env (Client 0) (Deadline 153) ''b'' ''x''
           (snd (NewClient mem_env Background (world [None, None, Some ''unexpected EOF'']))))))
     = ([1, 2], Some ''unexpected EOF'') \<and>
   fst (fst (Get mem_env ''b'' ''x'' ([], world [None, None, Some ''unexpected EOF'']))) = []"
proof -
  let ?s = "([], world [None, None, Some ''unexpected EOF''])"
  have e: "snd (fst (Get mem_env ''b'' ''x'' ?s)) = Some ''ioutil.ReadAll: unexpected EOF''"
    by (simp add: Get_def facade_defs mem_defs)
  then have "snd (fst (Get mem_env ''b'' ''x'' ?s)) \<noteq> None" by simp
  from Get_error_no_content[OF this] e show ?thesis
    by (simp add: mem_defs)
qed

subsection \<open>C7: the names of a successful listing\<close>

text \<open>
  C7: when \<^verbatim>\<open>List\<close> returns \<open>names\<close> and a nil error, the client was built, the
  iterator was obtained, and the iterator yielded exactly \<open>names\<close>, in this order, before
  the sentinel: nothing is sorted, dropped, added or merged.
\<close>

theorem List_success_names:
  assumes "List env bucket (tr, w) = Some ((names, None), s')"
  shows "\<exists>client w1 it w2 w3.
      NewClient env Background w = (Inr client, w1) \<and>
      Objects env client (Deadline (Now env w1 + 10)) bucket w1 = (it, w2) \<and>
      yields env it names w2 (IterDone, w3)"
proof -
  obtain x w1 where nc: "NewClient env Background w = (x, w1)"
    by (cases "NewClient env Background w")
  show ?thesis
  proof (cases x)
    case (Inl e)
    with nc assms show ?thesis by (simp add: List_client_fails)
  next
    case (Inr client)
    obtain it w2 where ob: "Objects env client (Deadline (Now env w1 + 10)) bucket w1 = (it, w2)"
      by (cases "Objects env client (Deadline (Now env w1 + 10)) bucket w1")
    from nc Inr have nc': "NewClient env Background w = (Inr client, w1)" by simp
    from assms obtain s'' where
      lp: "list_loop env it bucket []
             (tr @ [EvNewClient Background, EvObjects client (Deadline (Now env w1 + 10)) bucket], w2)
           = Some ((names, None), s'')"
      by (auto simp: List_client_ok[OF nc' ob] split: option.splits)
    from list_loop_returns[OF lp] obtain ns fin w3 where
      y: "yields env it ns w2 (fin, w3)" and nm: "names = ns" and er: "listing_error env bucket fin = None"
      by auto
    from er y have "fin = IterDone"
      by (cases fin) (auto simp: listing_error_def yields_not_Item)
    with y nm nc' ob show ?thesis by blast
  qed
qed

text \<open>
  C7 at a concrete input: a bucket of two objects.
\<close>

theorem List_success_names_witness:
  "(\<exists>s'. List mem_env ''b'' ([], world []) = Some (([''x'', ''y''], None), s')) \<and>
   (\<exists>client w1 it w2 w3.
      NewClient mem_env Background (world []) = (Inr client, w1) \<and>
      Objects mem_env client (Deadline (Now mem_env w1 + 10)) ''b'' w1 = (it, w2) \<and>
      yields mem_env it [''x'', ''y''] w2 (IterDone, w3))"
proof -
  from mem_List_world obtain s' where
    l: "List mem_env ''b'' ([], world []) = Some (([''x'', ''y''], None), s')" by blast
  from List_success_names[OF l] l show ?thesis by blast
qed

subsection \<open>C8: an empty bucket\<close>

text \<open>
  C8: when the first answer of the iterator is the sentinel, \<^verbatim>\<open>List\<close> returns the
  empty sequence and a nil error.
\<close>

theorem List_empty_bucket:
  assumes "NewClient env Background w = (Inr client, w1)"
    and "Objects env client (Deadline (Now env w1 + 10)) bucket w1 = (it, w2)"
    and "Next env it w2 = (IterDone, w3)"
  shows "List env bucket (tr, w) =
     Some (([], None),
           (tr @ [EvNewClient Background, EvObjects client (Deadline (Now env w1 + 10)) bucket,
                  EvNext it, EvCancel (Deadline (Now env w1 + 10)), EvClientClose client],
            snd (ClientClose env client w3)))"
proof -
  have "yields env it [] w2 (IterDone, w3)" using assms(3) by simp
  from list_loop_yields[OF this, of bucket "[]"] show ?thesis
    by (simp add: List_client_ok[OF assms(1,2)] listing_error_def)
qed

text \<open>
  C8 at a concrete input: a bucket that holds nothing.
\<close>

theorem List_empty_bucket_witness:
  "map_option fst (List mem_env ''empty'' ([], world [])) = Some ([], None)"
proof -
  let ?w = "world []"
  let ?w1 = "snd (mem_NewClient Background ?w)"
  let ?w2 = "snd (mem_Objects (Client 0) (Deadline 113) ''empty'' ?w1)"
  let ?w3 = "snd (mem_Next (Iter 1) ?w2)"
  have 1: "NewClient mem_env Background ?w = (Inr (Client 0), ?w1)"
    by (simp add: mem_defs)
  have 2: "Objects mem_env (Client 0) (Deadline (Now mem_env ?w1 + 10)) ''empty'' ?w1 = (Iter 1, ?w2)"
    by (simp add: mem_defs)
  have 3: "Next mem_env (Iter 1) ?w2 = (IterDone, ?w3)"
    by (simp add: mem_defs)
  from List_empty_bucket[OF 1 2 3, of "[]"] show ?thesis
    by simp
qed

subsection \<open>C9: what is opened is closed\<close>

text \<open>
  C9: once the client is built, on every path of \<^verbatim>\<open>Upload\<close> and \<^verbatim>\<open>Get\<close>, and for every
  \<^verbatim>\<open>List\<close> that returns, the world the function leaves is the one that
  \<^verbatim>\<open>client.Close()\<close> on that client returned, applied to the world left by the last
  step before it, and this close is the last call logged; and once \<^verbatim>\<open>Get\<close> has opened
  the reader, \<^verbatim>\<open>rc.Close()\<close> on that reader is applied to the world the read left,
  whatever the read returned, before the client is closed.
\<close>

theorem resources_released:
  assumes nc: "NewClient env Background w = (Inr client, w1)"
  shows
   "(\<forall>wc w2 n cerr w3 x w4.
       NewWriter env client (Deadline (Now env w1 + 50)) bucket object w1 = (wc, w2) \<and>
       Copy env wc file w2 = ((n, cerr), w3) \<and>
       WriterClose env wc w3 = (x, w4) \<longrightarrow>
       (\<exists>evs. snd (Upload env file bucket object (tr, w)) =
          (tr @ EvNewClient Background # evs @ [EvClientClose client],
           snd (ClientClose env client (case cerr of Some e \<Rightarrow> w3 | None \<Rightarrow> w4))))) \<and>
    (\<forall>e w2.
       NewReader env client (Deadline (Now env w1 + 50)) bucket object w1 = (Inl e, w2) \<longrightarrow>
       (\<exists>evs. snd (Get env bucket object (tr, w)) =
          (tr @ EvNewClient Background # evs @ [EvClientClose client],
           snd (ClientClose env client w2)))) \<and>
    (\<forall>rc w2 r w3.
       NewReader env client (Deadline (Now env w1 + 50)) bucket object w1 = (Inr rc, w2) \<and>
       ReadAll env rc w2 = (r, w3) \<longrightarrow>
       snd (Get env bucket object (tr, w)) =
         (tr @ [EvNewClient Background,
                EvNewReader client (Deadline (Now env w1 + 50)) bucket object,
                EvReadAll rc, EvReaderClose rc,
                EvCancel (Deadline (Now env w1 + 50)), EvClientClose client],
          snd (ClientClose env client (snd (ReaderClose env rc w3))))) \<and>
    (\<forall>it w2 r s'.
       Objects env client (Deadline (Now env w1 + 10)) bucket w1 = (it, w2) \<and>
       List env bucket (tr, w) = Some (r, s') \<longrightarrow>
       (\<exists>names fin w3. yields env it names w2 (fin, w3) \<and>
          s' = (tr @ [EvNewClient Background, EvObjects client (Deadline (Now env w1 + 10)) bucket]
                   @ replicate (Suc (length names)) (EvNext it)
                   @ [EvCancel (Deadline (Now env w1 + 10)), EvClientClose client],
                snd (ClientClose env client w3))))"
proof (intro conjI allI impI; (elim conjE)?)
  fix wc w2 n cerr w3 x w4
  assume "NewWriter env client (Deadline (Now env w1 + 50)) bucket object w1 = (wc, w2)"
    "Copy env wc file w2 = ((n, cerr), w3)" "WriterClose env wc w3 = (x, w4)"
  from Upload_run[OF nc this, of tr]
  show "\<exists>evs. snd (Upload env file bucket object (tr, w)) =
          (tr @ EvNewClient Background # evs @ [EvClientClose client],
           snd (ClientClose env client (case cerr of Some e \<Rightarrow> w3 | None \<Rightarrow> w4)))"
    by (cases cerr) auto
next
  fix e w2
  assume "NewReader env client (Deadline (Now env w1 + 50)) bucket object w1 = (Inl e, w2)"
  from Get_run_open_fails[OF nc this, of tr]
  show "\<exists>evs. snd (Get env bucket object (tr, w)) =
          (tr @ EvNewClient Background # evs @ [EvClientClose client],
           snd (ClientClose env client w2))"
    by auto
next
  fix rc w2 r w3
  assume a: "NewReader env client (Deadline (Now env w1 + 50)) bucket object w1 = (Inr rc, w2)"
    "ReadAll env rc w2 = (r, w3)"
  obtain data rerr where "r = (data, rerr)" by (cases r)
  with a have "ReadAll env rc w2 = ((data, rerr), w3)" by simp
  from Get_run_opened[OF nc a(1) this, of tr]
  show "snd (Get env bucket object (tr, w)) =
         (tr @ [EvNewClient Background,
                EvNewReader client (Deadline (Now env w1 + 50)) bucket object,
                EvReadAll rc, EvReaderClose rc,
                EvCancel (Deadline (Now env w1 + 50)), EvClientClose client],
          snd (ClientClose env client (snd (ReaderClose env rc w3))))"
    by simp
next
  fix it w2 r s'
  assume ob: "Objects env client (Deadline (Now env w1 + 10)) bucket w1 = (it, w2)"
    and ret: "List env bucket (tr, w) = Some (r, s')"
  from List_returns[OF nc ob ret]
  show "\<exists>names fin w3. yields env it names w2 (fin, w3) \<and>
          s' = (tr @ [EvNewClient Background, EvObjects client (Deadline (Now env w1 + 10)) bucket]
                   @ replicate (Suc (length names)) (EvNext it)
                   @ [EvCancel (Deadline (Now env w1 + 10)), EvClientClose client],
                snd (ClientClose env client w3))"
    by blast
qed

text \<open>
  C9 at concrete inputs. A read fails part-way: when it returns, one reader and one
  client are open, and in the world \<^verbatim>\<open>Get\<close> leaves none is. A copy fails, and a listing
  succeeds: no client is left open.
\<close>

theorem resources_released_witness:
  "fst (Get mem_env ''b'' ''x'' ([], world [None, None, Some ''unexpected EOF''])) =
     ([], Some ''ioutil.ReadAll: unexpected EOF'') \<and>
   readers (snd (ReadAll mem_env (Reader 1)
     (snd (NewReader mem_env (Client 0) (Deadline 153) ''b'' ''x''
       (snd (NewClient mem_env Background (world [None, None, Some ''unexpected EOF''])))))))
     = [(1, [1, 2, 3, 4])] \<and>
   clients (snd (ReadAll mem_env (Reader 1)
     (snd (NewReader mem_env (Client 0) (Deadline 153) ''b'' ''x''
       (snd (NewClient mem_env Background (world [None, None, Some ''unexpected EOF''])))))))
     = [0] \<and>
   fst (snd (Get mem_env ''b'' ''x'' ([], world [None, None, Some ''unexpected EOF'']))) =
     [EvNewClient Background, EvNewReader (Client 0) (Deadline 153) ''b'' ''x'',
      EvReadAll (Reader 1), EvReaderClose (Reader 1), EvCancel (Deadline 153),
      EvClientClose (Client 0)] \<and>
   readers (snd (snd (Get mem_env ''b'' ''x'' ([], world [None, None, Some ''unexpected EOF''])))) = [] \<and>
   clients (snd (snd (Get mem_env ''b'' ''x'' ([], world [None, None, Some ''unexpected EOF''])))) = [] \<and>
   clients (snd (snd (Upload mem_env [9] ''b'' ''o'' ([], world [None, Some ''broken pipe''])))) = [] \<and>
   map_option (\<lambda>r. clients (snd (snd r))) (List mem_env ''b'' ([], world [])) = Some []"
proof -
  let ?w = "world [None, None, Some ''unexpected EOF'']"
  let ?w1 = "snd (mem_NewClient Background ?w)"
  let ?w2 = "snd (mem_NewReader (Client 0) (Deadline 153) ''b'' ''x'' ?w1)"
  let ?w3 = "snd (mem_ReadAll (Reader 1) ?w2)"
  have nc: "NewClient mem_env Background ?w = (Inr (Client 0), ?w1)"
    by (simp add: mem_defs)
  have g: "NewReader mem_env (Client 0) (Deadline (Now mem_env ?w1 + 50)) ''b'' ''x'' ?w1 = (Inr (Reader 1), ?w2) \<and>
      ReadAll mem_env (Reader 1) ?w2 = (([1, 2], Some ''unexpected EOF''), ?w3)"
    by (simp add: mem_defs)
  have n: "Now mem_env ?w1 + 50 = 153" by (simp add: mem_defs)
  from resources_released[OF nc, of "''b''" "''x''" "[9]" "[]", THEN conjunct2, THEN conjunct2,
      THEN conjunct1, rule_format, OF g]
  have 1: "snd (Get mem_env ''b'' ''x'' ([], ?w)) =
      ([EvNewClient Background, EvNewReader (Client 0) (Deadline 153) ''b'' ''x'',
        EvReadAll (Reader 1), EvReaderClose (Reader 1), EvCancel (Deadline 153),
        EvClientClose (Client 0)],
       snd (ClientClose mem_env (Client 0) (snd (ReaderClose mem_env (Reader 1) ?w3))))"
    by (simp add: n)
  have 2: "fst (Get mem_env ''b'' ''x'' ([], ?w)) = ([], Some ''ioutil.ReadAll: unexpected EOF'')"
    by (simp add: Get_def facade_defs mem_defs)
  let ?v = "world [None, Some ''broken pipe'']"
  let ?v1 = "snd (mem_NewClient Background ?v)"
  let ?v2 = "snd (mem_NewWriter (Client 0) (Deadline 153) ''b'' ''o'' ?v1)"
  let ?v3 = "snd (mem_Copy (Writer 1) [9] ?v2)"
  let ?v4 = "snd (mem_WriterClose (Writer 1) ?v3)"
  have nv: "NewClient mem_env Background ?v = (Inr (Client 0), ?v1)"
    by (simp add: mem_defs)
  have u: "NewWriter mem_env (Client 0) (Deadline (Now mem_env ?v1 + 50)) ''b'' ''o'' ?v1 = (Writer 1, ?v2) \<and>
      Copy mem_env (Writer 1) [9] ?v2 = ((0, Some ''broken pipe''), ?v3) \<and>
      WriterClose mem_env (Writer 1) ?v3 = (fst (mem_WriterClose (Writer 1) ?v3), ?v4)"
    by (simp add: mem_defs)
  from resources_released[OF nv, of "''b''" "''o''" "[9]" "[]", THEN conjunct1, rule_format, OF u]
  have 3: "snd (snd (Upload mem_env [9] ''b'' ''o'' ([], ?v))) =
      snd (ClientClose mem_env (Client 0) ?v3)"
    by auto
  let ?l = "world []"
  let ?l1 = "snd (mem_NewClient Background ?l)"
  let ?l2 = "snd (mem_Objects (Client 0) (Deadline 113) ''b'' ?l1)"
  have nl: "NewClient mem_env Background ?l = (Inr (Client 0), ?l1)"
    by (simp add: mem_defs)
  have ob: "Objects mem_env (Client 0) (Deadline (Now mem_env ?l1 + 10)) ''b'' ?l1 = (Iter 1, ?l2)"
    by (simp add: mem_defs)
  from mem_List_world obtain s' where
    ls: "List mem_env ''b'' ([], ?l) = Some (([''x'', ''y''], None), s')" by blast
  from resources_released[OF nl, of "''b''" "''o''" "[9]" "[]", THEN conjunct2, THEN conjunct2,
      THEN conjunct2, rule_format, OF conjI[OF ob ls]]
  obtain names fin w3 where ys: "yields mem_env (Iter 1) names ?l2 (fin, w3)"
    and fw: "snd s' = snd (ClientClose mem_env (Client 0) w3)"
    by auto
  from mem_yields_clients[OF ys] have "clients w3 = [0]"
    by (simp add: mem_defs)
  with fw have 4: "clients (snd s') = []"
    by (simp add: mem_defs)
  from 1 2 3 4 ls show ?thesis
    by (simp add: mem_defs)
qed

subsection \<open>C10: a failed copy is not committed\<close>

text \<open>
  C10: when the copy fails with \<open>e\<close>, \<^verbatim>\<open>Upload\<close> returns the error \<^verbatim>\<open>io.Copy: e\<close>,
  and the calls it made are exactly: client construction, opening the writer, the copy,
  the cancel of the context and the close of the client. The writer is never closed.
\<close>

theorem Upload_copy_failure_no_finalize:
  assumes "NewClient env Background w = (Inr client, w1)"
    and "NewWriter env client (Deadline (Now env w1 + 50)) bucket object w1 = (wc, w2)"
    and "Copy env wc file w2 = ((n, Some e), w3)"
  shows "Upload env file bucket object (tr, w) =
     (Some (''io.Copy: '' @ e),
      (tr @ [EvNewClient Background,
             EvNewWriter client (Deadline (Now env w1 + 50)) bucket object,
             EvCopy wc,
             EvCancel (Deadline (Now env w1 + 50)),
             EvClientClose client],
       snd (ClientClose env client w3)))"
  using assms
  by (simp add: Upload_def call_simp deferred_def WithTimeout_def Let_def cancel_def
      close_client_def split: prod.splits)

text \<open>
  C10 at a concrete input: the copy runs into the deadline.
\<close>

theorem Upload_copy_failure_no_finalize_witness:
  "fst (Upload mem_env [9] ''b'' ''o'' ([], world [None, Some ''context deadline exceeded''])) =
     Some ''io.Copy: context deadline exceeded'' \<and>
   fst (snd (Upload mem_env [9] ''b'' ''o'' ([], world [None, Some ''context deadline exceeded'']))) =
     [EvNewClient Background, EvNewWriter (Client 0) (Deadline 153) ''b'' ''o'',
      EvCopy (Writer 1), EvCancel (Deadline 153), EvClientClose (Client 0)]"
proof -
  let ?w = "world [None, Some ''context deadline exceeded'']"
  let ?w1 = "snd (mem_NewClient Background ?w)"
  let ?w2 = "snd (mem_NewWriter (Client 0) (Deadline 153) ''b'' ''o'' ?w1)"
  let ?w3 = "snd (mem_Copy (Writer 1) [9] ?w2)"
  have 1: "NewClient mem_env Background ?w = (Inr (Client 0), ?w1)"
    by (simp add: mem_defs)
  have 2: "NewWriter mem_env (Client 0) (Deadline (Now mem_env ?w1 + 50)) ''b'' ''o'' ?w1 =
      (Writer 1, ?w2)"
    by (simp add: mem_defs)
  have 3: "Copy mem_env (Writer 1) [9] ?w2 = ((0, Some ''context deadline exceeded''), ?w3)"
    by (simp add: mem_defs)
  from Upload_copy_failure_no_finalize[OF 1 2 3, of "[]"] show ?thesis
    by (simp add: mem_defs)
qed

end
